theory Spec2Isabelle
  imports
    Complex_Main
    "HOL-Library.Char_ord"
    "HOL-Library.List_Lexorder"
    "HOL-Library.Product_Lexorder"
    "HOL-Library.Multiset"
begin

section \<open>Expense tracker: the analysis layer of \<^verbatim>\<open>expense_tracker.py\<close>\<close>

text \<open>
  The theory embeds the class \<^verbatim>\<open>ExpenseAnalyzer\<close>. Each method starts with
  \<^verbatim>\<open>df = self.db.get_all_expenses()\<close>; here the snapshot \<open>df\<close> is the argument of the
  function, a list of rows in the order the query returns them.

  Conventions of the embedding.
  \<^item> The column \<^verbatim>\<open>amount REAL\<close> holds IEEE doubles. They are idealised to exact
    rationals: sums, means and quotients are computed without representation error.
    The non-finite results a float division can produce are kept (type \<open>float64\<close>).
  \<^item> The columns \<^verbatim>\<open>description TEXT\<close> and \<^verbatim>\<open>payment_method TEXT\<close> are nullable in
    the table, hence \<open>string option\<close>; the other columns are \<^verbatim>\<open>NOT NULL\<close>.
  \<^item> A Python \<^verbatim>\<open>None\<close> result is \<open>Inr None\<close>, a raised exception is \<open>Inl e\<close>.
  \<^item> The operations of the dataframe library (\<^verbatim>\<open>groupby\<close>, \<^verbatim>\<open>agg\<close>, \<^verbatim>\<open>round\<close>,
    \<^verbatim>\<open>sort_values\<close>, \<^verbatim>\<open>nlargest\<close>, \<^verbatim>\<open>value_counts\<close>, \<^verbatim>\<open>idxmax\<close>) are not part of the
    repository; they are modelled after the library's documented behaviour, each
    with a comment naming what is assumed.
\<close>

subsection \<open>Data model\<close>

text \<open>One row of the table \<^verbatim>\<open>expenses\<close> (column \<^verbatim>\<open>id\<close> is named \<open>expense_id\<close>).\<close>

record expense =
  expense_id :: int
  date :: string
  amount :: rat
  category :: string
  description :: "string option"
  payment_method :: "string option"

type_synonym dataframe = "expense list"

datatype error =
    ValueError string   \<comment> \<open>raised by the date parser, with the text it could not parse\<close>
  | IndexError          \<comment> \<open>\<^verbatim>\<open>index[0]\<close> on an empty index\<close>

text \<open>The result of a float division: a finite value, or one of the non-finite doubles.\<close>

datatype float64 = Fin rat | NaN | PosInf | NegInf

definition truediv :: "rat \<Rightarrow> rat \<Rightarrow> float64" where
  "truediv a b =
     (if b \<noteq> 0 then Fin (a / b)
      else if a = 0 then NaN
      else if 0 < a then PosInf else NegInf)"

fun map_float64 :: "(rat \<Rightarrow> rat) \<Rightarrow> float64 \<Rightarrow> float64" where
  "map_float64 f (Fin q) = Fin (f q)"
| "map_float64 f NaN = NaN"
| "map_float64 f PosInf = PosInf"
| "map_float64 f NegInf = NegInf"

subsection \<open>Rounding to two decimals\<close>

text \<open>
  \<^verbatim>\<open>.round(2)\<close> scales by 100, rounds to the nearest integer with ties to the even
  neighbour, and scales back.
\<close>

definition round_half_even :: "rat \<Rightarrow> int" where
  "round_half_even q =
     (let f = \<lfloor>q\<rfloor>; d = q - of_int f
      in if d < 1 / 2 then f
         else if 1 / 2 < d then f + 1
         else if even f then f else f + 1)"

definition round2 :: "rat \<Rightarrow> rat" where
  "round2 x = of_int (round_half_even (x * 100)) / 100"

subsection \<open>Overall summary\<close>

record summary =
  total_expenses :: nat
  total_spent :: rat
  average_expense :: rat
  largest_expense :: rat
  smallest_expense :: rat

text \<open>
  \<^verbatim>\<open>get_spending_summary\<close>: \<^verbatim>\<open>len(df)\<close>, and \<^verbatim>\<open>sum\<close>, \<^verbatim>\<open>mean\<close>, \<^verbatim>\<open>max\<close>, \<^verbatim>\<open>min\<close> of
  the column \<^verbatim>\<open>amount\<close>; \<^verbatim>\<open>None\<close> when the frame is empty.
\<close>

definition get_spending_summary :: "dataframe \<Rightarrow> error + summary option" where
  "get_spending_summary df =
     (case df of
        [] \<Rightarrow> Inr None
      | r # rs \<Rightarrow>
          Inr (Some \<lparr>
            total_expenses = length df,
            total_spent = sum_list (map amount df),
            average_expense = sum_list (map amount df) / of_nat (length df),
            largest_expense = fold max (map amount rs) (amount r),
            smallest_expense = fold min (map amount rs) (amount r) \<rparr>))"

subsection \<open>Dataframe operations\<close>

text \<open>
  \<^verbatim>\<open>df.groupby(key)\<close> with the defaults \<^verbatim>\<open>sort=True, dropna=True\<close>: one group for each
  distinct non-null key, the keys in ascending order, each group holding its rows in
  the order of the frame. Strings compare lexicographically by character code.
\<close>

definition groupby :: "('r \<Rightarrow> 'k::linorder option) \<Rightarrow> 'r list \<Rightarrow> ('k \<times> 'r list) list" where
  "groupby key df =
     map (\<lambda>k. (k, filter (\<lambda>r. key r = Some k) df)) (sort (remdups (List.map_filter key df)))"

text \<open>
  \<^verbatim>\<open>sort_values(..., ascending=False)\<close>: the library reverses the rows, sorts them
  ascending and reverses the outcome. The ascending sort is taken to keep rows with
  equal keys in their order (the default sort of the library does so on short inputs),
  so that rows with equal keys end up in their original order.
\<close>

definition sort_values_desc :: "('r \<Rightarrow> 'k::linorder) \<Rightarrow> 'r list \<Rightarrow> 'r list" where
  "sort_values_desc key rows = rev (sort_key key (rev rows))"

text \<open>
  \<^verbatim>\<open>nlargest(n, column)\<close> with the default \<^verbatim>\<open>keep='first'\<close>: no rows for \<open>n \<le> 0\<close>;
  otherwise the first \<open>n\<close> rows of a stable sort by the negated column.
\<close>

definition nlargest :: "int \<Rightarrow> ('r \<Rightarrow> rat) \<Rightarrow> 'r list \<Rightarrow> 'r list" where
  "nlargest n key df = (if n \<le> 0 then [] else take (nat n) (sort_key (\<lambda>r. - key r) df))"

text \<open>The distinct values of a column in order of first appearance.\<close>

definition unique :: "'a list \<Rightarrow> 'a list" where
  "unique xs = rev (remdups (rev xs))"

text \<open>
  \<^verbatim>\<open>value_counts()\<close>: nulls dropped, one entry for each distinct value in order of first
  appearance with its number of occurrences, then sorted by that number, descending.
\<close>

definition value_counts :: "'a option list \<Rightarrow> ('a \<times> nat) list" where
  "value_counts col =
     (let vals = List.map_filter (\<lambda>v. v) col
      in sort_values_desc snd (map (\<lambda>v. (v, count_list vals v)) (unique vals)))"

text \<open>\<^verbatim>\<open>idxmax()\<close> and \<^verbatim>\<open>max()\<close> of a series: the first entry holding the largest value.\<close>

fun idxmax_from :: "'k \<times> rat \<Rightarrow> ('k \<times> rat) list \<Rightarrow> 'k \<times> rat" where
  "idxmax_from best [] = best"
| "idxmax_from best (kv # kvs) = idxmax_from (if snd best < snd kv then kv else best) kvs"

subsection \<open>Dates\<close>

text \<open>
  A parsed date. Timestamps are compared and subtracted through their day number
  (\<open>toordinal\<close>); the monthly period of a timestamp is its year and month.
\<close>

record timestamp =
  year :: int
  month :: int
  day :: int

definition is_leap :: "int \<Rightarrow> bool" where
  "is_leap y = (if y mod 100 = 0 then y mod 400 = 0 else y mod 4 = 0)"

definition days_in_month :: "int \<Rightarrow> int \<Rightarrow> int" where
  "days_in_month y m =
     (if m = 2 then (if is_leap y then 29 else 28)
      else if m = 4 \<or> m = 6 \<or> m = 9 \<or> m = 11 then 30 else 31)"

definition days_before_year :: "int \<Rightarrow> int" where
  "days_before_year y = (y - 1) * 365 + (y - 1) div 4 - (y - 1) div 100 + (y - 1) div 400"

definition days_before_month :: "int \<Rightarrow> int \<Rightarrow> int" where
  "days_before_month y m = sum_list (map (days_in_month y) [1 ..< nat m])"

definition toordinal :: "timestamp \<Rightarrow> int" where
  "toordinal t = days_before_year (year t) + days_before_month (year t) (month t) + day t"

definition to_period_M :: "timestamp \<Rightarrow> int \<times> int" where
  "to_period_M t = (year t, month t)"

text \<open>
  \<^verbatim>\<open>pd.to_datetime(df['date'])\<close> belongs to the library. The analyses take the parser of
  one string as a parameter \<open>to_datetime\<close>: it raises (\<open>Inl\<close>), yields the null
  timestamp NaT (\<open>Inr None\<close>) or a timestamp. The column is parsed front to back and
  the first failure is the one raised. The parser sees the date strings only.
\<close>

fun to_datetime_col ::
  "(string \<Rightarrow> error + timestamp option) \<Rightarrow> string list \<Rightarrow> error + timestamp option list" where
  "to_datetime_col to_datetime [] = Inr []"
| "to_datetime_col to_datetime (s # ss) =
     (case to_datetime s of
        Inl e \<Rightarrow> Inl e
      | Inr t \<Rightarrow>
          (case to_datetime_col to_datetime ss of
             Inl e \<Rightarrow> Inl e
           | Inr ts \<Rightarrow> Inr (t # ts)))"

text \<open>
  A concrete parser for the format \<^verbatim>\<open>%Y-%m-%d\<close> that \<^verbatim>\<open>get_date\<close> validates on entry,
  used to evaluate the analyses on concrete snapshots. The empty string and the
  spellings of NaT give the null timestamp, as in the library; a string of the form
  \<^verbatim>\<open>YYYY-MM-DD\<close> naming a calendar day between 1678 and 2261 (inside the range of the
  library's timestamps) is parsed; every other string is rejected.
\<close>

definition digit_of :: "char \<Rightarrow> int option" where
  "digit_of c =
     (if CHR ''0'' \<le> c \<and> c \<le> CHR ''9'' then Some (int (of_char c) - 48) else None)"

fun digits_value :: "int \<Rightarrow> string \<Rightarrow> int option" where
  "digits_value acc [] = Some acc"
| "digits_value acc (c # cs) =
     (case digit_of c of None \<Rightarrow> None | Some d \<Rightarrow> digits_value (10 * acc + d) cs)"

definition nat_strings :: "string list" where
  "nat_strings = [''NaT'', ''nat'', ''NAT'', ''nan'', ''NaN'', ''NAN'']"

definition to_datetime_iso :: "string \<Rightarrow> error + timestamp option" where
  "to_datetime_iso s =
     (if s = [] \<or> s \<in> set nat_strings then Inr None
      else if length s = 10 \<and> s ! 4 = CHR ''-'' \<and> s ! 7 = CHR ''-'' then
        (case (digits_value 0 (take 4 s), digits_value 0 (take 2 (drop 5 s)),
               digits_value 0 (drop 8 s)) of
           (Some y, Some m, Some d) \<Rightarrow>
             if 1678 \<le> y \<and> y \<le> 2261 \<and> 1 \<le> m \<and> m \<le> 12 \<and> 1 \<le> d \<and> d \<le> days_in_month y m
             then Inr (Some \<lparr> year = y, month = m, day = d \<rparr>)
             else Inl (ValueError s)
         | _ \<Rightarrow> Inl (ValueError s))
      else Inl (ValueError s))"

subsection \<open>Grouped analyses\<close>

record cat_row =
  Total :: rat
  Count :: nat
  Average :: rat

text \<open>
  \<^verbatim>\<open>spending_by_category\<close>: group by \<^verbatim>\<open>category\<close>, aggregate \<^verbatim>\<open>amount\<close> with
  \<^verbatim>\<open>sum\<close>, \<^verbatim>\<open>count\<close>, \<^verbatim>\<open>mean\<close>, round to two decimals (a count is unchanged by
  rounding), then sort by the rounded column \<^verbatim>\<open>Total\<close>, descending.
\<close>

definition spending_by_category :: "dataframe \<Rightarrow> error + (string \<times> cat_row) list option" where
  "spending_by_category df =
     (if df = [] then Inr None
      else
        let category_summary =
              map (\<lambda>(k, g). (k, \<lparr> Total = round2 (sum_list (map amount g)),
                                  Count = length g,
                                  Average = round2 (sum_list (map amount g) / of_nat (length g)) \<rparr>))
                  (groupby (\<lambda>r. Some (category r)) df)
        in Inr (Some (sort_values_desc (\<lambda>(k, row). Total row) category_summary)))"

record payment_row =
  pay_Total :: rat
  pay_Count :: nat

text \<open>\<^verbatim>\<open>spending_by_payment_method\<close>: the same with key \<^verbatim>\<open>payment_method\<close>, no mean.\<close>

definition spending_by_payment_method ::
  "dataframe \<Rightarrow> error + (string \<times> payment_row) list option" where
  "spending_by_payment_method df =
     (if df = [] then Inr None
      else
        let payment_summary =
              map (\<lambda>(k, g). (k, \<lparr> pay_Total = round2 (sum_list (map amount g)),
                                  pay_Count = length g \<rparr>))
                  (groupby payment_method df)
        in Inr (Some (sort_values_desc (\<lambda>(k, row). pay_Total row) payment_summary)))"

record month_row =
  Total_Spent :: rat
  Num_Expenses :: nat
  Avg_Expense :: rat

text \<open>
  \<^verbatim>\<open>monthly_spending_trend\<close>: parse the dates (an exception of the parser leaves the
  method), take the monthly period of each, group by it and aggregate as above. The
  groups are not sorted again: they are in ascending order of the period.
\<close>

definition monthly_spending_trend ::
  "(string \<Rightarrow> error + timestamp option) \<Rightarrow> dataframe
     \<Rightarrow> error + ((int \<times> int) \<times> month_row) list option" where
  "monthly_spending_trend to_datetime df =
     (if df = [] then Inr None
      else
        case to_datetime_col to_datetime (map date df) of
          Inl e \<Rightarrow> Inl e
        | Inr dates \<Rightarrow>
            let months = map (map_option to_period_M) dates;
                monthly =
                  map (\<lambda>(k, g). (k, \<lparr> Total_Spent = round2 (sum_list (map (amount \<circ> fst) g)),
                                      Num_Expenses = length g,
                                      Avg_Expense =
                                        round2 (sum_list (map (amount \<circ> fst) g) / of_nat (length g)) \<rparr>))
                      (groupby snd (zip df months))
            in Inr (Some monthly))"

subsection \<open>Top expenses\<close>

text \<open>
  \<^verbatim>\<open>top_expenses(n)\<close>: \<^verbatim>\<open>df.nlargest(n, 'amount')\<close> projected to the columns \<^verbatim>\<open>date\<close>,
  \<^verbatim>\<open>amount\<close>, \<^verbatim>\<open>category\<close>, \<^verbatim>\<open>description\<close>. A row of the result keeps its index label,
  which is the position of the record in the snapshot. There is no check of \<open>n\<close>.
\<close>

type_synonym top_row = "nat \<times> string \<times> rat \<times> string \<times> string option"

definition project :: "nat \<times> expense \<Rightarrow> top_row" where
  "project ir = (fst ir, date (snd ir), amount (snd ir), category (snd ir), description (snd ir))"

definition top_expenses :: "int \<Rightarrow> dataframe \<Rightarrow> error + top_row list option" where
  "top_expenses n df =
     (if df = [] then Inr None
      else Inr (Some (map project (nlargest n (amount \<circ> snd) (enumerate 0 df)))))"

text \<open>The column \<^verbatim>\<open>amount\<close> of a row of the result.\<close>

definition top_amount :: "top_row \<Rightarrow> rat" where
  "top_amount row = fst (snd (snd row))"

subsection \<open>Category percentages\<close>

record pct_row =
  Amount :: rat
  Percentage :: float64

text \<open>
  \<^verbatim>\<open>category_percentage\<close>: the unrounded sums per category, sorted descending; each
  divided by the unrounded total, multiplied by 100 and only then rounded.
\<close>

definition category_percentage :: "dataframe \<Rightarrow> error + (string \<times> pct_row) list option" where
  "category_percentage df =
     (if df = [] then Inr None
      else
        let total_spending = sum_list (map amount df);
            category_totals =
              sort_values_desc snd
                (map (\<lambda>(k, g). (k, sum_list (map amount g))) (groupby (\<lambda>r. Some (category r)) df))
        in Inr (Some (map (\<lambda>(k, s).
                        (k, \<lparr> Amount = s,
                              Percentage =
                                map_float64 round2
                                  (map_float64 (\<lambda>q. q * 100) (truediv s total_spending)) \<rparr>))
                      category_totals)))"

subsection \<open>Pattern insights\<close>

text \<open>
  The five findings. The method returns formatted strings; a finding is represented by
  its label and the values that the string is formatted from.
\<close>

datatype pattern =
    MostFrequentCategory string
  | HighestSpendingCategory string rat
  | MostUsedPaymentMethod string
  | AverageDailySpending float64
  | LargePurchases nat

text \<open>
  \<^verbatim>\<open>(df['date'].max() - df['date'].min()).days + 1\<close>: null timestamps are skipped by
  \<^verbatim>\<open>max\<close> and \<^verbatim>\<open>min\<close>; with no timestamp left the difference is null and the range
  is not a number (\<open>None\<close>).
\<close>

definition date_range :: "timestamp option list \<Rightarrow> int option" where
  "date_range dates =
     (case List.map_filter (\<lambda>t. t) dates of
        [] \<Rightarrow> None
      | t # ts \<Rightarrow>
          Some (fold max (map toordinal ts) (toordinal t)
                  - fold min (map toordinal ts) (toordinal t) + 1))"

definition find_patterns ::
  "(string \<Rightarrow> error + timestamp option) \<Rightarrow> dataframe \<Rightarrow> error + pattern list" where
  "find_patterns to_datetime df =
     (if df = [] then Inr []
      else
        case to_datetime_col to_datetime (map date df) of
          Inl e \<Rightarrow> Inl e
        | Inr dates \<Rightarrow>
            (case value_counts (map (\<lambda>r. Some (category r)) df) of
               [] \<Rightarrow> Inl IndexError
             | (most_frequent_category, c) # cs \<Rightarrow>
                 (case map (\<lambda>(k, g). (k, sum_list (map amount g)))
                         (groupby (\<lambda>r. Some (category r)) df) of
                    [] \<Rightarrow> Inl (ValueError ''attempt to get argmax of an empty sequence'')
                  | kv # kvs \<Rightarrow>
                      (case value_counts (map payment_method df) of
                         [] \<Rightarrow> Inl IndexError
                       | (preferred_payment, p) # ps \<Rightarrow>
                           let (highest_spending_cat, highest_amount) = idxmax_from kv kvs;
                               daily_avg =
                                 (case date_range dates of
                                    None \<Rightarrow> NaN
                                  | Some days \<Rightarrow> truediv (sum_list (map amount df)) (of_int days));
                               avg_expense = sum_list (map amount df) / of_nat (length df);
                               large_purchases =
                                 length (filter (\<lambda>r. avg_expense * 2 < amount r) df)
                           in Inr [MostFrequentCategory most_frequent_category,
                                   HighestSpendingCategory highest_spending_cat highest_amount,
                                   MostUsedPaymentMethod preferred_payment,
                                   AverageDailySpending daily_avg,
                                   LargePurchases large_purchases]))))"

subsection \<open>Snapshots used for evaluation\<close>

definition mk :: "int \<Rightarrow> string \<Rightarrow> rat \<Rightarrow> string \<Rightarrow> string \<Rightarrow> expense" where
  "mk i d a c p =
     \<lparr> expense_id = i, date = d, amount = a, category = c,
       description = Some [], payment_method = Some p \<rparr>"

text \<open>The three records of the scenario, newest date first as the query returns them.\<close>

definition scenario :: dataframe where
  "scenario =
     [mk 3 ''2024-02-01'' 20 ''Transport'' ''Cash'',
      mk 2 ''2024-01-05'' 150 ''Food'' ''Card'',
      mk 1 ''2024-01-01'' 50 ''Food'' ''Cash'']"


section \<open>Properties\<close>

subsection \<open>Auxiliary facts about lists of amounts\<close>




subsection \<open>Stable sorting\<close>

lemma insort_key_lex:
  assumes "sorted_wrt (\<lambda>p q. f p < f q \<or> (f p = f q \<and> R p q)) ys"
    and "\<forall>y\<in>set ys. R x y"
  shows "sorted_wrt (\<lambda>p q. f p < f q \<or> (f p = f q \<and> R p q)) (insort_key f x ys)"
  using assms
proof (induction ys)
  case Nil
  then show ?case by simp
next
  case (Cons y ys)
  show ?case
  proof (cases "f x \<le> f y")
    case True
    have "\<forall>z\<in>set (y # ys). f x < f z \<or> (f x = f z \<and> R x z)"
    proof
      fix z assume z: "z \<in> set (y # ys)"
      have "f y \<le> f z" using Cons.prems(1) z by auto
      with True have "f x \<le> f z" by simp
      moreover have "R x z" using Cons.prems(2) z by blast
      ultimately show "f x < f z \<or> (f x = f z \<and> R x z)" by auto
    qed
    with True Cons.prems(1) show ?thesis by simp
  next
    case False
    have ih: "sorted_wrt (\<lambda>p q. f p < f q \<or> (f p = f q \<and> R p q)) (insort_key f x ys)"
      using Cons.IH Cons.prems by simp
    have "\<forall>z\<in>set (insort_key f x ys). f y < f z \<or> (f y = f z \<and> R y z)"
      using False Cons.prems(1) by (auto simp: set_insort_key)
    with False ih show ?thesis by simp
  qed
qed

lemma sort_key_lex:
  assumes "sorted_wrt R xs"
  shows "sorted_wrt (\<lambda>p q. f p < f q \<or> (f p = f q \<and> R p q)) (sort_key f xs)"
  using assms
proof (induction xs)
  case Nil
  then show ?case by simp
next
  case (Cons x xs)
  then show ?case by (simp add: insort_key_lex)
qed


lemma set_sort_values_desc: "set (sort_values_desc key rows) = set rows"
  by (simp add: sort_values_desc_def)


subsection \<open>The rows selected by top-N\<close>

lemma enumerate_sorted_fst: "sorted_wrt (\<lambda>p q. fst p < fst q) (enumerate 0 df)"
proof -
  have "sorted_wrt (\<lambda>p q. fst p < fst q) (enumerate 0 df)
          = sorted_wrt (<) (map fst (enumerate 0 df))"
    by (simp only: sorted_wrt_map)
  also have "\<dots>" by (simp add: strict_sorted_iff)
  finally show ?thesis .
qed

lemma in_enumerate0: "p \<in> set (enumerate 0 df) \<longleftrightarrow> fst p < length df \<and> snd p = df ! fst p"
  by (auto simp: in_set_enumerate_eq)

lemma sorted_nlargest_source:
  "sorted_wrt (\<lambda>p q. amount (snd q) < amount (snd p) \<or> (amount (snd p) = amount (snd q) \<and> fst p < fst q)) (sort_key (\<lambda>p. - (amount \<circ> snd) p) (enumerate 0 df))"
proof -
  have "sorted_wrt (\<lambda>p q. - (amount \<circ> snd) p < - (amount \<circ> snd) q
           \<or> (- (amount \<circ> snd) p = - (amount \<circ> snd) q \<and> fst p < fst q))
         (sort_key (\<lambda>p. - (amount \<circ> snd) p) (enumerate 0 df))"
    using enumerate_sorted_fst by (rule sort_key_lex)
  then show ?thesis
    by (rule sorted_wrt_mono_rel [rotated]) auto
qed

lemma top_amount_project: "top_amount (project p) = amount (snd p)" "fst (project p) = fst p"
  by (simp_all add: top_amount_def project_def)

lemma top_rows_props:
  fixes df :: dataframe and k :: nat
  defines "S \<equiv> sort_key (\<lambda>p. - (amount \<circ> snd) p) (enumerate 0 df)"
  defines "rows \<equiv> map project (take k S)"
  shows "length rows = min k (length df)"
    and "distinct (map fst rows)"
    and "\<forall>row\<in>set rows. fst row < length df \<and> row = project (fst row, df ! fst row)"
    and "sorted_wrt (\<lambda>r s. top_amount s < top_amount r
            \<or> (top_amount r = top_amount s \<and> fst r < fst s)) rows"
    and "\<forall>i<length df. i \<notin> fst ` set rows \<longrightarrow>
           (\<forall>r\<in>set rows. amount (df ! i) < top_amount r
              \<or> (amount (df ! i) = top_amount r \<and> fst r < i))"
proof -
  have setS: "set S = set (enumerate 0 df)" by (simp add: S_def)
  have sortedS: "sorted_wrt (\<lambda>p q. amount (snd q) < amount (snd p) \<or> (amount (snd p) = amount (snd q) \<and> fst p < fst q)) S"
    unfolding S_def by (rule sorted_nlargest_source)
  have fst_rows: "map fst rows = take k (map fst S)"
    by (simp add: rows_def take_map comp_def top_amount_project)
  show "length rows = min k (length df)"
    by (simp add: rows_def S_def)
  have "mset (map fst S) = mset (map fst (enumerate 0 df))"
    by (simp only: S_def mset_map mset_sort)
  then have "distinct (map fst S) = distinct (map fst (enumerate 0 df))"
    by (rule mset_eq_imp_distinct_iff)
  then have dS: "distinct (map fst S)" by simp
  then show "distinct (map fst rows)" by (simp add: fst_rows)
  show "\<forall>row\<in>set rows. fst row < length df \<and> row = project (fst row, df ! fst row)"
  proof
    fix row assume "row \<in> set rows"
    then obtain p where p: "p \<in> set (take k S)" and row: "row = project p"
      by (auto simp: rows_def)
    from p have "p \<in> set (enumerate 0 df)" using setS by (auto dest: in_set_takeD)
    then have "fst p < length df" and "snd p = df ! fst p" by (simp_all add: in_enumerate0)
    then show "fst row < length df \<and> row = project (fst row, df ! fst row)"
      by (simp add: row project_def)
  qed
  have "sorted_wrt (\<lambda>p q. amount (snd q) < amount (snd p) \<or> (amount (snd p) = amount (snd q) \<and> fst p < fst q)) (take k S)"
    using sortedS by (rule sorted_wrt_take)
  then show "sorted_wrt (\<lambda>r s. top_amount s < top_amount r
            \<or> (top_amount r = top_amount s \<and> fst r < fst s)) rows"
    by (simp add: rows_def sorted_wrt_map top_amount_project)
  show "\<forall>i<length df. i \<notin> fst ` set rows \<longrightarrow>
           (\<forall>r\<in>set rows. amount (df ! i) < top_amount r
              \<or> (amount (df ! i) = top_amount r \<and> fst r < i))"
  proof (intro allI impI ballI)
    fix i r assume i: "i < length df" and out: "i \<notin> fst ` set rows" and r: "r \<in> set rows"
    from r obtain p where p: "p \<in> set (take k S)" and rp: "r = project p"
      by (auto simp: rows_def)
    have "(i, df ! i) \<in> set S" using i by (simp add: setS in_enumerate0)
    moreover have "(i, df ! i) \<notin> set (take k S)"
    proof
      assume "(i, df ! i) \<in> set (take k S)"
      then have "project (i, df ! i) \<in> set rows" by (simp add: rows_def)
      then have "fst (project (i, df ! i)) \<in> fst ` set rows" by (rule imageI)
      with out show False by (simp add: top_amount_project)
    qed
    ultimately have q: "(i, df ! i) \<in> set (drop k S)"
      by (metis Un_iff append_take_drop_id set_append)
    have "\<forall>x\<in>set (take k S). \<forall>y\<in>set (drop k S).
            amount (snd y) < amount (snd x) \<or> (amount (snd x) = amount (snd y) \<and> fst x < fst y)"
    proof -
      have "sorted_wrt (\<lambda>p q. amount (snd q) < amount (snd p)
               \<or> (amount (snd p) = amount (snd q) \<and> fst p < fst q)) (take k S @ drop k S)"
        using sortedS by (simp only: append_take_drop_id)
      then show ?thesis unfolding sorted_wrt_append by blast
    qed
    then have "amount (snd (i, df ! i)) < amount (snd p)
        \<or> (amount (snd p) = amount (snd (i, df ! i)) \<and> fst p < fst (i, df ! i))"
      using p q by blast
    then show "amount (df ! i) < top_amount r
              \<or> (amount (df ! i) = top_amount r \<and> fst r < i)"
      by (auto simp: rp top_amount_project)
  qed
qed

lemma top_expenses_rows:
  assumes "df \<noteq> []" and "1 \<le> n"
  shows "top_expenses n df =
           Inr (Some (map project (take (nat n) (sort_key (\<lambda>p. - (amount \<circ> snd) p) (enumerate 0 df)))))"
  using assms by (simp add: top_expenses_def nlargest_def)

subsection \<open>Grouping\<close>

lemma set_map_filter_key: "set (List.map_filter key df) = {k. \<exists>r\<in>set df. key r = Some k}"
  by (induction df) (auto simp: List.map_filter_simps split: option.splits)

lemma groupby_keys: "map fst (groupby key df) = sort (remdups (List.map_filter key df))"
  by (simp add: groupby_def comp_def)

lemma groupby_keys_strict: "sorted_wrt (<) (map fst (groupby key df))"
  by (simp add: groupby_keys strict_sorted_iff)

lemma groupby_sorted: "sorted_wrt (\<lambda>p q. fst p < fst q) (groupby key df)"
proof -
  have "sorted_wrt (\<lambda>p q. fst p < fst q) (groupby key df)
          = sorted_wrt (<) (map fst (groupby key df))"
    by (simp only: sorted_wrt_map)
  then show ?thesis by (simp only: groupby_keys_strict)
qed

lemma groupby_distinct: "distinct (map fst (groupby key df))"
  by (simp add: groupby_keys)

lemma set_groupby_keys: "set (map fst (groupby key df)) = {k. \<exists>r\<in>set df. key r = Some k}"
  by (simp add: groupby_keys set_map_filter_key)

lemma in_groupby:
  "(k, g) \<in> set (groupby key df)
     \<longleftrightarrow> (\<exists>r\<in>set df. key r = Some k) \<and> g = filter (\<lambda>r. key r = Some k) df"
  by (auto simp: groupby_def set_map_filter_key)

lemma groupby_eq_Nil: "groupby key df = [] \<longleftrightarrow> (\<forall>r\<in>set df. key r = None)"
proof -
  have "groupby key df = [] \<longleftrightarrow> set (map fst (groupby key df)) = {}"
    by simp
  also have "\<dots> \<longleftrightarrow> (\<forall>r\<in>set df. key r = None)"
    unfolding set_groupby_keys by (auto simp: all_conj_distrib) (metis not_None_eq)
  finally show ?thesis .
qed

lemma sum_list_indicator_absent:
  fixes c :: "'a::comm_monoid_add"
  assumes "k0 \<notin> set ks"
  shows "(\<Sum>k\<leftarrow>ks. if k0 = k then c else 0) = 0"
  using assms by (induction ks) auto

lemma sum_list_indicator:
  fixes c :: "'a::comm_monoid_add"
  assumes "distinct ks" and "k0 \<in> set ks"
  shows "(\<Sum>k\<leftarrow>ks. if k0 = k then c else 0) = c"
  using assms by (induction ks) (auto simp: sum_list_indicator_absent)

lemma sum_list_groups:
  fixes f :: "'r \<Rightarrow> 'a::comm_monoid_add"
  assumes "distinct ks" and "\<forall>r\<in>set df. \<exists>k\<in>set ks. key r = Some k"
  shows "(\<Sum>k\<leftarrow>ks. sum_list (map f (filter (\<lambda>r. key r = Some k) df))) = sum_list (map f df)"
  using assms(2)
proof (induction df)
  case Nil
  then show ?case by simp
next
  case (Cons r df)
  from Cons.prems obtain k0 where k0: "k0 \<in> set ks" "key r = Some k0" by auto
  have "(\<Sum>k\<leftarrow>ks. sum_list (map f (filter (\<lambda>r. key r = Some k) (r # df))))
          = (\<Sum>k\<leftarrow>ks. (if k0 = k then f r else 0)
                 + sum_list (map f (filter (\<lambda>r. key r = Some k) df)))"
    by (rule arg_cong [where f = sum_list]) (simp add: k0)
  also have "\<dots> = (\<Sum>k\<leftarrow>ks. if k0 = k then f r else 0)
                 + (\<Sum>k\<leftarrow>ks. sum_list (map f (filter (\<lambda>r. key r = Some k) df)))"
    by (simp add: sum_list_addf)
  also have "\<dots> = f r + sum_list (map f df)"
    using Cons by (simp add: sum_list_indicator [OF assms(1) k0(1)])
  finally show ?case by simp
qed

lemma groupby_sum:
  fixes f :: "'r \<Rightarrow> 'a::comm_monoid_add"
  assumes "\<forall>r\<in>set df. key r \<noteq> None"
  shows "(\<Sum>k\<leftarrow>map fst (groupby key df). sum_list (map f (filter (\<lambda>r. key r = Some k) df)))
           = sum_list (map f df)"
proof (rule sum_list_groups)
  show "distinct (map fst (groupby key df))" by (rule groupby_distinct)
  show "\<forall>r\<in>set df. \<exists>k\<in>set (map fst (groupby key df)). key r = Some k"
    unfolding set_groupby_keys using assms by fastforce
qed



subsection \<open>Rounding and the date column\<close>

lemma round_half_even_close: "\<bar>of_int (round_half_even q) - q\<bar> \<le> 1 / 2"
proof -
  have "of_int \<lfloor>q\<rfloor> \<le> q" and "q < of_int \<lfloor>q\<rfloor> + 1"
    by linarith+
  then show ?thesis
    by (auto simp: round_half_even_def Let_def)
qed

lemma round2_close: "\<bar>round2 x - x\<bar> \<le> 1 / 200"
proof -
  have "\<bar>of_int (round_half_even (x * 100)) - x * 100\<bar> \<le> 1 / 2"
    by (rule round_half_even_close)
  then show ?thesis unfolding round2_def by linarith
qed

lemma round2_cents: "\<exists>m::int. round2 x = of_int m / 100"
  by (auto simp: round2_def)

lemma sum_round2_close:
  "\<bar>(\<Sum>x\<leftarrow>xs. round2 (f x)) - (\<Sum>x\<leftarrow>xs. f x)\<bar> \<le> of_nat (length xs) / 200"
proof (induction xs)
  case Nil
  then show ?case by simp
next
  case (Cons x xs)
  have "\<bar>round2 (f x) - f x\<bar> \<le> 1 / 200" by (rule round2_close)
  with Cons.IH show ?case
    by (simp only: list.map sum_list.Cons length_Cons of_nat_Suc add_divide_distrib)
qed

lemma to_datetime_col_ok:
  assumes "\<forall>s\<in>set ss. to_datetime s = Inr (g s)"
  shows "to_datetime_col to_datetime ss = Inr (map g ss)"
  using assms by (induction ss) simp_all

lemma to_datetime_col_fails:
  assumes "find (\<lambda>s. isl (to_datetime s)) ss = Some s0"
  shows "to_datetime_col to_datetime ss = Inl (projl (to_datetime s0))"
  using assms
proof (induction ss)
  case Nil
  then show ?case by simp
next
  case (Cons s ss)
  then show ?case by (cases "to_datetime s") (auto split: sum.splits)
qed

lemma groupby_column:
  "groupby snd (zip df (map h df)) = map (\<lambda>(k, g). (k, zip g (map h g))) (groupby h df)"
proof -
  have z: "\<And>xs. zip xs (map h xs) = map (\<lambda>r. (r, h r)) xs"
    by (simp add: zip_map2 zip_same_conv_map)
  have mf: "List.map_filter snd (map (\<lambda>r. (r, h r)) df) = List.map_filter h df"
    by (simp add: List.map_filter_def comp_def filter_map)
  show ?thesis
    by (simp add: groupby_def z mf filter_map comp_def)
qed

lemma monthly_spending_trend_groups:
  assumes "df \<noteq> []" and "\<forall>r\<in>set df. to_datetime (date r) = Inr (Some (ts r))"
  shows "monthly_spending_trend to_datetime df =
           Inr (Some (map (\<lambda>(k, g). (k, \<lparr> Total_Spent = round2 (sum_list (map amount g)),
                                            Num_Expenses = length g,
                                            Avg_Expense = round2 (sum_list (map amount g) / of_nat (length g)) \<rparr>))
                         (groupby (\<lambda>r. Some (to_period_M (ts r))) df)))"
proof -
  have "\<forall>s\<in>set (map date df). to_datetime s = Inr (projr (to_datetime s))"
    using assms(2) by auto
  then have "to_datetime_col to_datetime (map date df)
               = Inr (map (\<lambda>s. projr (to_datetime s)) (map date df))"
    by (rule to_datetime_col_ok)
  also have "map (\<lambda>s. projr (to_datetime s)) (map date df) = map (\<lambda>r. Some (ts r)) df"
    using assms(2) by simp
  finally have col: "to_datetime_col to_datetime (map date df) = Inr (map (\<lambda>r. Some (ts r)) df)" .
  have months: "map (map_option to_period_M) (map (\<lambda>r. Some (ts r)) df)
                  = map (\<lambda>r. Some (to_period_M (ts r))) df"
    by simp
  have amt: "\<And>g h. map (amount \<circ> fst) (zip g (map h g)) = map amount g"
    by (simp add: zip_map2 zip_same_conv_map comp_def)
  show ?thesis
    using assms(1)
    by (simp only: monthly_spending_trend_def col months groupby_column Let_def sum.case if_False)
       (simp add: case_prod_beta comp_def amt [unfolded comp_def])
qed

subsection \<open>Pattern insights: when the method returns\<close>

lemma set_value_counts:
  "set (value_counts col)
     = (\<lambda>v. (v, count_list (List.map_filter (\<lambda>v. v) col) v)) ` set (List.map_filter (\<lambda>v. v) col)"
  by (simp add: value_counts_def Let_def set_sort_values_desc unique_def)

lemma value_counts_eq_Nil: "value_counts col = [] \<longleftrightarrow> (\<forall>v\<in>set col. v = None)"
proof -
  have "value_counts col = [] \<longleftrightarrow> set (value_counts col) = {}" by simp
  also have "\<dots> \<longleftrightarrow> set (List.map_filter (\<lambda>v. v) col) = {}"
    by (simp only: set_value_counts image_is_empty)
  also have "\<dots> \<longleftrightarrow> (\<forall>v\<in>set col. v = None)"
    unfolding set_map_filter_key by (auto; metis not_None_eq)
  finally show ?thesis .
qed

lemma fold_max_image:
  fixes f :: "'a \<Rightarrow> 'b::linorder"
  shows "fold max (map f rs) (f r) = Max (f ` set (r # rs))"
    and "fold min (map f rs) (f r) = Min (f ` set (r # rs))"
proof -
  have "Max (set (map f (r # rs))) = fold max (map f rs) (f r)"
    by (simp only: list.map Max.set_eq_fold)
  then show "fold max (map f rs) (f r) = Max (f ` set (r # rs))" by (simp only: set_map)
  have "Min (set (map f (r # rs))) = fold min (map f rs) (f r)"
    by (simp only: list.map Min.set_eq_fold)
  then show "fold min (map f rs) (f r) = Min (f ` set (r # rs))" by (simp only: set_map)
qed

lemma date_range_parsed:
  assumes "df \<noteq> []"
  shows "date_range (map (\<lambda>r. Some (ts r)) df)
           = Some (Max ((\<lambda>r. toordinal (ts r)) ` set df) - Min ((\<lambda>r. toordinal (ts r)) ` set df) + 1)"
proof -
  from assms obtain r rs where df: "df = r # rs" by (cases df) auto
  have mf: "List.map_filter (\<lambda>t. t) (map (\<lambda>r. Some (ts r)) df) = map ts df"
    by (simp add: List.map_filter_def comp_def)
  have "date_range (map (\<lambda>r. Some (ts r)) df)
          = Some (fold max (map (\<lambda>r. toordinal (ts r)) rs) (toordinal (ts r))
                  - fold min (map (\<lambda>r. toordinal (ts r)) rs) (toordinal (ts r)) + 1)"
    unfolding date_range_def mf by (simp add: df comp_def)
  then show ?thesis
    using fold_max_image [where f = "\<lambda>r. toordinal (ts r)" and r = r and rs = rs]
    by (simp only: df)
qed

lemma find_patterns_returns:
  assumes ne: "df \<noteq> []"
    and col: "to_datetime_col to_datetime (map date df) = Inr dates"
    and pay: "\<exists>r\<in>set df. payment_method r \<noteq> None"
  shows "\<exists>p1 p2 p3.
           find_patterns to_datetime df =
             Inr [p1, p2, p3,
                  AverageDailySpending
                    (case date_range dates of
                       None \<Rightarrow> NaN
                     | Some days \<Rightarrow> truediv (sum_list (map amount df)) (of_int days)),
                  LargePurchases
                    (length (filter (\<lambda>r. sum_list (map amount df) / of_nat (length df) * 2 < amount r) df))]"
proof -
  have "value_counts (map (\<lambda>r. Some (category r)) df) \<noteq> []"
    using ne by (cases df) (auto simp: value_counts_eq_Nil)
  then obtain c cn cs where vc: "value_counts (map (\<lambda>r. Some (category r)) df) = (c, cn) # cs"
    by (cases "value_counts (map (\<lambda>r. Some (category r)) df)") auto
  have "groupby (\<lambda>r. Some (category r)) df \<noteq> []"
    using ne by (cases df) (auto simp: groupby_eq_Nil)
  then obtain kv kvs where
    gs: "map (\<lambda>(k, g). (k, sum_list (map amount g))) (groupby (\<lambda>r. Some (category r)) df) = kv # kvs"
    by (cases "groupby (\<lambda>r. Some (category r)) df") auto
  have "value_counts (map payment_method df) \<noteq> []"
    using pay by (auto simp: value_counts_eq_Nil)
  then obtain p pn ps where vp: "value_counts (map payment_method df) = (p, pn) # ps"
    by (cases "value_counts (map payment_method df)") auto
  show ?thesis
    using ne by (simp add: find_patterns_def col vc gs vp Let_def case_prod_beta)
qed

lemma parsed_column:
  assumes "\<forall>r\<in>set df. to_datetime (date r) = Inr (Some (ts r))"
  shows "to_datetime_col to_datetime (map date df) = Inr (map (\<lambda>r. Some (ts r)) df)"
proof -
  have "\<forall>s\<in>set (map date df). to_datetime s = Inr (projr (to_datetime s))"
    using assms by auto
  then have "to_datetime_col to_datetime (map date df)
               = Inr (map (\<lambda>s. projr (to_datetime s)) (map date df))"
    by (rule to_datetime_col_ok)
  also have "map (\<lambda>s. projr (to_datetime s)) (map date df) = map (\<lambda>r. Some (ts r)) df"
    using assms by simp
  finally show ?thesis .
qed


lemma day_span:
  fixes f :: "'a \<Rightarrow> int"
  assumes "df \<noteq> []"
  shows "1 \<le> Max (f ` set df) - Min (f ` set df) + 1"
    and "(\<forall>r\<in>set df. f r = c) \<longrightarrow> Max (f ` set df) - Min (f ` set df) + 1 = 1"
proof -
  from assms obtain r where r: "r \<in> set df" by (cases df) auto
  have fin: "finite (f ` set df)" by simp
  have x: "f r \<in> f ` set df" using r by (rule imageI)
  have "Min (f ` set df) \<le> f r" using fin x by (rule Min_le)
  moreover have "f r \<le> Max (f ` set df)" using fin x by (rule Max_ge)
  ultimately show "1 \<le> Max (f ` set df) - Min (f ` set df) + 1" by linarith
  show "(\<forall>r\<in>set df. f r = c) \<longrightarrow> Max (f ` set df) - Min (f ` set df) + 1 = 1"
  proof
    assume a: "\<forall>r\<in>set df. f r = c"
    have "f ` set df \<subseteq> {c}" using a by blast
    moreover have "c \<in> f ` set df" using a r by (metis imageI)
    ultimately have "f ` set df = {c}" by blast
    then show "Max (f ` set df) - Min (f ` set df) + 1 = 1"
      by (simp only: Max_singleton Min_singleton)
  qed
qed

lemma find_map_date:
  "find P (map f xs) = map_option f (find (\<lambda>x. P (f x)) xs)"
  by (induction xs) simp_all

subsection \<open>Overall summary is internally consistent\<close>



subsection \<open>The empty snapshot\<close>

text \<open>
  Claim C4. On the empty snapshot no analysis raises: the overall summary, spending by
  category, spending by payment method, the monthly trend, top-N and the category
  percentages return the no-result value \<open>None\<close>, and the pattern insights return the
  empty list (for every date parser and every \<open>n\<close>).
\<close>

theorem empty_snapshot_no_data:
  "get_spending_summary [] = Inr None
   \<and> spending_by_category [] = Inr None
   \<and> spending_by_payment_method [] = Inr None
   \<and> monthly_spending_trend to_datetime [] = Inr None
   \<and> top_expenses n [] = Inr None
   \<and> category_percentage [] = Inr None
   \<and> find_patterns to_datetime [] = Inr []
   \<and> find_patterns to_datetime [] \<noteq> Inl e"
  by (simp add: get_spending_summary_def spending_by_category_def
        spending_by_payment_method_def monthly_spending_trend_def top_expenses_def
        category_percentage_def find_patterns_def)

theorem empty_snapshot_no_data_witness:
  "get_spending_summary [] = Inr None
   \<and> spending_by_category [] = Inr None
   \<and> spending_by_payment_method [] = Inr None
   \<and> monthly_spending_trend to_datetime_iso [] = Inr None
   \<and> top_expenses 5 [] = Inr None
   \<and> category_percentage [] = Inr None
   \<and> find_patterns to_datetime_iso [] = Inr []
   \<and> find_patterns to_datetime_iso [] \<noteq> Inl IndexError"
  using empty_snapshot_no_data [of to_datetime_iso 5 IndexError] .

subsection \<open>Top-N: the argument is not validated\<close>

text \<open>
  Claim C2, amended. Top-N raises for no integer \<open>n\<close>: the empty snapshot gives the
  no-result value; a non-empty snapshot gives an empty table when \<open>n < 1\<close> and
  \<open>min n (length df)\<close> rows when \<open>n \<ge> 1\<close>.
\<close>

theorem top_expenses_never_raises:
  "(\<exists>res. top_expenses n df = Inr res)
   \<and> (df = [] \<longrightarrow> top_expenses n df = Inr None)
   \<and> (df \<noteq> [] \<and> n < 1 \<longrightarrow> top_expenses n df = Inr (Some []))
   \<and> (df \<noteq> [] \<and> 1 \<le> n \<longrightarrow>
        (\<exists>rows. top_expenses n df = Inr (Some rows) \<and> length rows = min (nat n) (length df)))"
  by (simp add: top_expenses_def nlargest_def min.commute)

theorem top_expenses_never_raises_witness:
  "scenario \<noteq> [] \<and> (0::int) < 1 \<and> (1::int) \<le> 2
   \<and> top_expenses 0 scenario = Inr (Some [])
   \<and> (\<exists>rows. top_expenses 2 scenario = Inr (Some rows)
         \<and> length rows = min (nat 2) (length scenario))"
proof -
  have ne: "scenario \<noteq> []" by (simp add: scenario_def)
  show ?thesis
    using ne top_expenses_never_raises [of 0 scenario] top_expenses_never_raises [of 2 scenario]
    by simp
qed

text \<open>
  The claim as stated asks for an error when \<open>n < 1\<close>. With \<open>n = 0\<close> on the scenario
  the method returns an empty table.
\<close>

theorem top_expenses_zero_counterexample:
  "(0::int) < 1 \<and> top_expenses 0 scenario = Inr (Some []) \<and> \<not> isl (top_expenses 0 scenario)"
  by (simp add: top_expenses_def nlargest_def scenario_def)

subsection \<open>Top-N: monotone, largest first, stable\<close>

text \<open>
  Claim C6. For \<open>n \<ge> 1\<close> the top-\<open>n\<close> table is the first \<open>n\<close> rows of the
  top-\<open>(n+1)\<close> table, so the records of the former (by position in the snapshot, hence
  by id) are among those of the latter. The table has \<open>min n (length df)\<close> rows, each
  the projection of a distinct record of the snapshot; amounts descend, rows with equal
  amounts are in snapshot order, and every record left out has a smaller amount than
  each row, or an equal amount and a later position.
\<close>

theorem top_expenses_monotone_stable:
  assumes "1 \<le> n"
  shows "if df = [] then top_expenses n df = Inr None \<and> top_expenses (n + 1) df = Inr None
         else \<exists>rows rows'.
           top_expenses n df = Inr (Some rows) \<and> top_expenses (n + 1) df = Inr (Some rows')
           \<and> rows = take (nat n) rows'
           \<and> (\<lambda>i. expense_id (df ! i)) ` fst ` set rows
                \<subseteq> (\<lambda>i. expense_id (df ! i)) ` fst ` set rows'
           \<and> length rows = min (nat n) (length df)
           \<and> distinct (map fst rows)
           \<and> (\<forall>row\<in>set rows. fst row < length df \<and> row = project (fst row, df ! fst row))
           \<and> sorted_wrt (\<lambda>r s. top_amount s < top_amount r
                  \<or> (top_amount r = top_amount s \<and> fst r < fst s)) rows
           \<and> (\<forall>i<length df. i \<notin> fst ` set rows \<longrightarrow>
                 (\<forall>r\<in>set rows. amount (df ! i) < top_amount r
                     \<or> (amount (df ! i) = top_amount r \<and> fst r < i)))"
proof (cases "df = []")
  case True
  then show ?thesis by (simp add: top_expenses_def)
next
  case False
  define S where "S = sort_key (\<lambda>p. - (amount \<circ> snd) p) (enumerate 0 df)"
  define rows where "rows = map project (take (nat n) S)"
  define rows' where "rows' = map project (take (nat (n + 1)) S)"
  have r: "top_expenses n df = Inr (Some rows)"
    using False assms by (simp add: top_expenses_rows rows_def S_def)
  have r': "top_expenses (n + 1) df = Inr (Some rows')"
    using False assms by (simp add: top_expenses_rows rows'_def S_def)
  have pre: "rows = take (nat n) rows'"
    using assms by (simp add: rows_def rows'_def take_map min_def)
  have sub: "set rows \<subseteq> set rows'"
    by (subst pre) (rule set_take_subset)
  have ids: "(\<lambda>i. expense_id (df ! i)) ` fst ` set rows
                \<subseteq> (\<lambda>i. expense_id (df ! i)) ` fst ` set rows'"
    using sub by blast
  note props = top_rows_props [where k = "nat n" and df = df, folded S_def, folded rows_def]
  show ?thesis
    using False r r' pre ids props by simp
qed

theorem top_expenses_monotone_stable_witness:
  "(1::int) \<le> 2 \<and>
   (if scenario = [] then top_expenses 2 scenario = Inr None \<and> top_expenses (2 + 1) scenario = Inr None
         else \<exists>rows rows'.
           top_expenses 2 scenario = Inr (Some rows) \<and> top_expenses (2 + 1) scenario = Inr (Some rows')
           \<and> rows = take (nat 2) rows'
           \<and> (\<lambda>i. expense_id (scenario ! i)) ` fst ` set rows
                \<subseteq> (\<lambda>i. expense_id (scenario ! i)) ` fst ` set rows'
           \<and> length rows = min (nat 2) (length scenario)
           \<and> distinct (map fst rows)
           \<and> (\<forall>row\<in>set rows. fst row < length scenario \<and> row = project (fst row, scenario ! fst row))
           \<and> sorted_wrt (\<lambda>r s. top_amount s < top_amount r
                  \<or> (top_amount r = top_amount s \<and> fst r < fst s)) rows
           \<and> (\<forall>i<length scenario. i \<notin> fst ` set rows \<longrightarrow>
                 (\<forall>r\<in>set rows. amount (scenario ! i) < top_amount r
                     \<or> (amount (scenario ! i) = top_amount r \<and> fst r < i))))"
proof -
  have h: "(1::int) \<le> 2" by simp
  show ?thesis using h top_expenses_monotone_stable [OF h, of scenario] by blast
qed

subsection \<open>Spending by category\<close>



subsection \<open>Category percentages\<close>



subsection \<open>Monthly trend\<close>

text \<open>
  Claim C5. For every non-empty snapshot whose dates all parse (\<open>ts r\<close> is the
  timestamp of record \<open>r\<close>), the monthly trend has its buckets in strictly ascending
  order of (year, month); every record belongs to exactly one bucket, the one of the
  year and month of its date; a bucket holds the rounded sum, the count and the rounded
  mean of its records; the unrounded bucket sums add up to the total of the snapshot
  and the counts to its length; the rounded sums differ from the total by at most half
  a cent for each bucket.
\<close>

theorem monthly_trend_partition:
  assumes "df \<noteq> []" and "\<forall>r\<in>set df. to_datetime (date r) = Inr (Some (ts r))"
  shows "\<exists>buckets. monthly_spending_trend to_datetime df = Inr (Some buckets)
     \<and> sorted_wrt (<) (map fst buckets)
     \<and> (\<forall>r\<in>set df. \<exists>!b. b \<in> set buckets \<and> fst b = to_period_M (ts r))
     \<and> (\<forall>(k, row)\<in>set buckets.
           Total_Spent row = round2 (sum_list (map amount (filter (\<lambda>r. to_period_M (ts r) = k) df)))
         \<and> Num_Expenses row = length (filter (\<lambda>r. to_period_M (ts r) = k) df)
         \<and> 0 < Num_Expenses row
         \<and> Avg_Expense row = round2 (sum_list (map amount (filter (\<lambda>r. to_period_M (ts r) = k) df))
                                    / of_nat (length (filter (\<lambda>r. to_period_M (ts r) = k) df))))
     \<and> (\<Sum>k\<leftarrow>map fst buckets. sum_list (map amount (filter (\<lambda>r. to_period_M (ts r) = k) df)))
           = sum_list (map amount df)
     \<and> (\<Sum>(k, row)\<leftarrow>buckets. Num_Expenses row) = length df
     \<and> \<bar>(\<Sum>(k, row)\<leftarrow>buckets. Total_Spent row) - sum_list (map amount df)\<bar>
           \<le> of_nat (length buckets) / 200"
proof -
  define h where "h = (\<lambda>r. Some (to_period_M (ts r)))"
  define G where "G = groupby h df"
  define F :: "expense list \<Rightarrow> month_row" where
    "F = (\<lambda>g. \<lparr> Total_Spent = round2 (sum_list (map amount g)), Num_Expenses = length g,
                Avg_Expense = round2 (sum_list (map amount g) / of_nat (length g)) \<rparr>)"
  define buckets where "buckets = map (\<lambda>(k, g). (k, F g)) G"
  have res: "monthly_spending_trend to_datetime df = Inr (Some buckets)"
    using monthly_spending_trend_groups [OF assms]
    by (simp add: buckets_def G_def h_def F_def)
  have keys: "map fst buckets = map fst G"
    by (simp add: buckets_def comp_def case_prod_beta)
  have grp: "\<And>k. filter (\<lambda>r. h r = Some k) df = filter (\<lambda>r. to_period_M (ts r) = k) df"
    by (simp add: h_def)
  have b_eq: "buckets = map (\<lambda>k. (k, F (filter (\<lambda>r. to_period_M (ts r) = k) df))) (map fst G)"
    by (simp add: buckets_def G_def groupby_def comp_def grp)
  have srt: "sorted_wrt (<) (map fst buckets)"
    by (simp only: keys G_def groupby_keys_strict)
  have dist: "distinct (map fst buckets)"
    by (simp only: keys G_def groupby_distinct)
  have keyset: "set (map fst buckets) = (\<lambda>r. to_period_M (ts r)) ` set df"
    unfolding keys G_def set_groupby_keys by (force simp: h_def)
  have one: "\<forall>r\<in>set df. \<exists>!b. b \<in> set buckets \<and> fst b = to_period_M (ts r)"
  proof
    fix r assume r: "r \<in> set df"
    then have "to_period_M (ts r) \<in> set (map fst buckets)"
      unfolding keyset by blast
    then obtain b where b: "b \<in> set buckets" "fst b = to_period_M (ts r)" by auto
    show "\<exists>!b. b \<in> set buckets \<and> fst b = to_period_M (ts r)"
    proof (rule ex1I [of _ b])
      show "b \<in> set buckets \<and> fst b = to_period_M (ts r)" using b by simp
    next
      fix c assume c: "c \<in> set buckets \<and> fst c = to_period_M (ts r)"
      have "(fst b, snd c) = c" and "(fst b, snd b) = b"
        using b c by (simp_all add: prod_eq_iff)
      then have "(fst b, snd c) \<in> set buckets" and "(fst b, snd b) \<in> set buckets"
        using b c by simp_all
      with dist have "snd c = snd b"
        by (rule eq_key_imp_eq_value)
      with b c show "c = b" by (simp add: prod_eq_iff)
    qed
  qed
  have rows: "\<forall>(k, row)\<in>set buckets.
           Total_Spent row = round2 (sum_list (map amount (filter (\<lambda>r. to_period_M (ts r) = k) df)))
         \<and> Num_Expenses row = length (filter (\<lambda>r. to_period_M (ts r) = k) df)
         \<and> 0 < Num_Expenses row
         \<and> Avg_Expense row = round2 (sum_list (map amount (filter (\<lambda>r. to_period_M (ts r) = k) df))
                                    / of_nat (length (filter (\<lambda>r. to_period_M (ts r) = k) df)))"
  proof (clarify)
    fix k row assume "(k, row) \<in> set buckets"
    then obtain g where g: "(k, g) \<in> set G" and row: "row = F g"
      by (auto simp: buckets_def)
    from g have ex: "\<exists>r\<in>set df. h r = Some k" and geq: "g = filter (\<lambda>r. to_period_M (ts r) = k) df"
      by (simp_all add: G_def in_groupby grp)
    from ex have "g \<noteq> []" unfolding geq by (auto simp: filter_empty_conv h_def)
    then show "Total_Spent row = round2 (sum_list (map amount (filter (\<lambda>r. to_period_M (ts r) = k) df)))
         \<and> Num_Expenses row = length (filter (\<lambda>r. to_period_M (ts r) = k) df)
         \<and> 0 < Num_Expenses row
         \<and> Avg_Expense row = round2 (sum_list (map amount (filter (\<lambda>r. to_period_M (ts r) = k) df))
                                    / of_nat (length (filter (\<lambda>r. to_period_M (ts r) = k) df)))"
      by (simp add: row F_def geq [symmetric])
  qed
  have all_keys: "\<forall>r\<in>set df. h r \<noteq> None" by (simp add: h_def)
  have part: "(\<Sum>k\<leftarrow>map fst buckets. sum_list (map amount (filter (\<lambda>r. to_period_M (ts r) = k) df)))
           = sum_list (map amount df)"
    using groupby_sum [OF all_keys, of amount] by (simp only: keys G_def grp)
  have cnt: "(\<Sum>(k, row)\<leftarrow>buckets. Num_Expenses row) = length df"
  proof -
    have "(\<Sum>(k, row)\<leftarrow>buckets. Num_Expenses row)
            = (\<Sum>k\<leftarrow>map fst G. length (filter (\<lambda>r. to_period_M (ts r) = k) df))"
      by (subst b_eq) (simp add: comp_def F_def)
    also have "\<dots> = (\<Sum>k\<leftarrow>map fst G. sum_list (map (\<lambda>r. 1::nat) (filter (\<lambda>r. h r = Some k) df)))"
      by (simp add: grp sum_list_triv)
    also have "\<dots> = sum_list (map (\<lambda>r. 1::nat) df)"
      unfolding G_def using all_keys by (rule groupby_sum)
    finally show ?thesis by (simp add: sum_list_triv)
  qed
  have rnd: "\<bar>(\<Sum>(k, row)\<leftarrow>buckets. Total_Spent row) - sum_list (map amount df)\<bar>
           \<le> of_nat (length buckets) / 200"
  proof -
    let ?f = "\<lambda>k. sum_list (map amount (filter (\<lambda>r. to_period_M (ts r) = k) df))"
    have "(\<Sum>(k, row)\<leftarrow>buckets. Total_Spent row) = (\<Sum>k\<leftarrow>map fst G. round2 (?f k))"
      by (subst b_eq) (simp add: comp_def F_def)
    moreover have "\<bar>(\<Sum>k\<leftarrow>map fst G. round2 (?f k)) - (\<Sum>k\<leftarrow>map fst G. ?f k)\<bar>
                     \<le> of_nat (length (map fst G)) / 200"
      by (rule sum_round2_close)
    moreover have "(\<Sum>k\<leftarrow>map fst G. ?f k) = sum_list (map amount df)"
      using part by (simp only: keys)
    moreover have "length buckets = length (map fst G)" by (simp add: buckets_def)
    ultimately show ?thesis by simp
  qed
  from res srt one rows part cnt rnd show ?thesis by blast
qed

theorem monthly_trend_partition_witness:
  "scenario \<noteq> []
   \<and> list_all
         (\<lambda>r. to_datetime_iso (date r) = Inr (Some (the (projr (to_datetime_iso (date r))))))
         scenario
   \<and> (\<exists>buckets. monthly_spending_trend to_datetime_iso scenario = Inr (Some buckets)
     \<and> sorted_wrt (<) (map fst buckets)
     \<and> (\<forall>r\<in>set scenario. \<exists>!b. b \<in> set buckets
            \<and> fst b = to_period_M (the (projr (to_datetime_iso (date r)))))
     \<and> (\<forall>(k, row)\<in>set buckets.
           Total_Spent row = round2 (sum_list (map amount
              (filter (\<lambda>r. to_period_M (the (projr (to_datetime_iso (date r)))) = k) scenario)))
         \<and> Num_Expenses row = length
              (filter (\<lambda>r. to_period_M (the (projr (to_datetime_iso (date r)))) = k) scenario)
         \<and> 0 < Num_Expenses row
         \<and> Avg_Expense row = round2 (sum_list (map amount
              (filter (\<lambda>r. to_period_M (the (projr (to_datetime_iso (date r)))) = k) scenario))
                / of_nat (length
              (filter (\<lambda>r. to_period_M (the (projr (to_datetime_iso (date r)))) = k) scenario))))
     \<and> (\<Sum>k\<leftarrow>map fst buckets. sum_list (map amount
              (filter (\<lambda>r. to_period_M (the (projr (to_datetime_iso (date r)))) = k) scenario)))
           = sum_list (map amount scenario)
     \<and> (\<Sum>(k, row)\<leftarrow>buckets. Num_Expenses row) = length scenario
     \<and> \<bar>(\<Sum>(k, row)\<leftarrow>buckets. Total_Spent row) - sum_list (map amount scenario)\<bar>
           \<le> of_nat (length buckets) / 200)"
proof -
  have ne: "scenario \<noteq> []" by (simp add: scenario_def)
  have all: "list_all
         (\<lambda>r. to_datetime_iso (date r) = Inr (Some (the (projr (to_datetime_iso (date r))))))
         scenario"
    by code_simp
  then have ok: "\<forall>r\<in>set scenario.
         to_datetime_iso (date r) = Inr (Some (the (projr (to_datetime_iso (date r)))))"
    by (simp only: list_all_iff)
  show ?thesis
    by (rule conjI [OF ne conjI [OF all monthly_trend_partition [OF ne ok]]])
qed

subsection \<open>Pattern insights: average daily spending\<close>

text \<open>
  Claim C7. For every non-empty snapshot whose dates all parse (\<open>ts r\<close> is the
  timestamp of record \<open>r\<close>) and in which some record has a payment method, the
  pattern insights are five findings, and the fourth is the total amount divided by
  the number of days \<open>max - min + 1\<close> between the earliest and the latest date. That
  number is at least 1, so the quotient is a finite number, and it is 1 when all
  records share one date.
\<close>

theorem average_daily_spending:
  assumes "df \<noteq> []"
    and "\<forall>r\<in>set df. to_datetime (date r) = Inr (Some (ts r))"
    and "\<exists>r\<in>set df. payment_method r \<noteq> None"
  shows "\<exists>ps days.
           find_patterns to_datetime df = Inr ps \<and> length ps = 5
         \<and> days = Max ((\<lambda>r. toordinal (ts r)) ` set df) - Min ((\<lambda>r. toordinal (ts r)) ` set df) + 1
         \<and> 1 \<le> days
         \<and> ps ! 3 = AverageDailySpending (Fin (sum_list (map amount df) / of_int days))
         \<and> ((\<forall>r\<in>set df. \<forall>r'\<in>set df. date r = date r') \<longrightarrow> days = 1)"
proof -
  define days where
    "days = Max ((\<lambda>r. toordinal (ts r)) ` set df) - Min ((\<lambda>r. toordinal (ts r)) ` set df) + 1"
  have pos: "1 \<le> days"
    unfolding days_def using assms(1) by (rule day_span(1))
  have col: "to_datetime_col to_datetime (map date df) = Inr (map (\<lambda>r. Some (ts r)) df)"
    using assms(2) by (rule parsed_column)
  have dr: "date_range (map (\<lambda>r. Some (ts r)) df) = Some days"
    unfolding days_def using assms(1) by (rule date_range_parsed)
  have nz: "(of_int days :: rat) \<noteq> 0" using pos by simp
  have avg: "truediv (sum_list (map amount df)) (of_int days)
               = Fin (sum_list (map amount df) / of_int days)"
    using nz by (simp add: truediv_def)
  from find_patterns_returns [OF assms(1) col assms(3)] obtain p1 p2 p3 p5 where
    "find_patterns to_datetime df =
           Inr [p1, p2, p3,
                AverageDailySpending
                  (case date_range (map (\<lambda>r. Some (ts r)) df) of
                     None \<Rightarrow> NaN
                   | Some days \<Rightarrow> truediv (sum_list (map amount df)) (of_int days)), p5]"
    by blast
  then have fp: "find_patterns to_datetime df =
           Inr [p1, p2, p3,
                AverageDailySpending (Fin (sum_list (map amount df) / of_int days)), p5]"
    by (simp only: dr option.case avg)
  have same: "(\<forall>r\<in>set df. \<forall>r'\<in>set df. date r = date r') \<longrightarrow> days = 1"
  proof
    assume eq: "\<forall>r\<in>set df. \<forall>r'\<in>set df. date r = date r'"
    from assms(1) obtain r0 where r0: "r0 \<in> set df" by (cases df) auto
    have "\<forall>r\<in>set df. toordinal (ts r) = toordinal (ts r0)"
    proof
      fix r assume r: "r \<in> set df"
      have a: "to_datetime (date r) = Inr (Some (ts r))" using assms(2) r by blast
      have b: "to_datetime (date r0) = Inr (Some (ts r0))" using assms(2) r0 by blast
      have c: "date r = date r0" using eq r r0 by blast
      have "Inr (Some (ts r)) = (Inr (Some (ts r0)) :: error + timestamp option)"
        using a b by (simp only: c)
      then have "ts r = ts r0" by (simp only: sum.inject option.inject)
      then show "toordinal (ts r) = toordinal (ts r0)" by (rule arg_cong)
    qed
    then show "days = 1"
      unfolding days_def
      using day_span(2) [OF assms(1), where f = "\<lambda>r. toordinal (ts r)" and c = "toordinal (ts r0)"]
      by blast
  qed
  let ?ps = "[p1, p2, p3, AverageDailySpending (Fin (sum_list (map amount df) / of_int days)), p5]"
  have len: "length ?ps = 5" by simp
  have nth: "?ps ! 3 = AverageDailySpending (Fin (sum_list (map amount df) / of_int days))"
    by (simp add: numeral_3_eq_3)
  from fp len days_def pos nth same show ?thesis by blast
qed

theorem average_daily_spending_witness:
  "scenario \<noteq> []
   \<and> list_all
         (\<lambda>r. to_datetime_iso (date r) = Inr (Some (the (projr (to_datetime_iso (date r))))))
         scenario
   \<and> (\<exists>r\<in>set scenario. payment_method r \<noteq> None)
   \<and> (\<exists>ps days.
           find_patterns to_datetime_iso scenario = Inr ps \<and> length ps = 5
         \<and> days = Max ((\<lambda>r. toordinal (the (projr (to_datetime_iso (date r))))) ` set scenario)
                  - Min ((\<lambda>r. toordinal (the (projr (to_datetime_iso (date r))))) ` set scenario) + 1
         \<and> 1 \<le> days
         \<and> ps ! 3 = AverageDailySpending (Fin (sum_list (map amount scenario) / of_int days))
         \<and> ((\<forall>r\<in>set scenario. \<forall>r'\<in>set scenario. date r = date r') \<longrightarrow> days = 1))"
proof -
  have ne: "scenario \<noteq> []" by (simp add: scenario_def)
  have all: "list_all
         (\<lambda>r. to_datetime_iso (date r) = Inr (Some (the (projr (to_datetime_iso (date r))))))
         scenario"
    by code_simp
  then have ok: "\<forall>r\<in>set scenario.
         to_datetime_iso (date r) = Inr (Some (the (projr (to_datetime_iso (date r)))))"
    by (simp only: list_all_iff)
  have pay: "\<exists>r\<in>set scenario. payment_method r \<noteq> None"
    by (simp add: scenario_def mk_def)
  show ?thesis
    by (rule conjI [OF ne conjI [OF all conjI [OF pay average_daily_spending [OF ne ok pay]]]])
qed

subsection \<open>Pattern insights: large purchases\<close>



subsection \<open>Malformed dates\<close>

text \<open>
  Claim C9, amended. If the parser rejects the date of some record, the monthly trend
  and the pattern insights both raise the parser's fault for the first rejected date
  of the snapshot; that is neither the no-result value nor the empty list. The fault
  is determined by the column of date strings: every snapshot with the same dates
  raises the same fault, whatever the ids of its records.
\<close>

theorem malformed_date_fault:
  assumes "r \<in> set df" and "isl (to_datetime (date r))"
  shows "\<exists>r0 e. find (\<lambda>r. isl (to_datetime (date r))) df = Some r0
           \<and> to_datetime (date r0) = Inl e
           \<and> monthly_spending_trend to_datetime df = Inl e
           \<and> find_patterns to_datetime df = Inl e
           \<and> monthly_spending_trend to_datetime df \<noteq> Inr None
           \<and> find_patterns to_datetime df \<noteq> Inr []
           \<and> (\<forall>df'. map date df' = map date df \<longrightarrow>
                 monthly_spending_trend to_datetime df' = Inl e
               \<and> find_patterns to_datetime df' = Inl e)"
proof -
  have "find (\<lambda>r. isl (to_datetime (date r))) df \<noteq> None"
    using assms by (auto simp: find_None_iff)
  then obtain r0 where r0: "find (\<lambda>r. isl (to_datetime (date r))) df = Some r0" by blast
  then have "isl (to_datetime (date r0))" by (auto simp: find_Some_iff)
  then obtain e where e: "to_datetime (date r0) = Inl e" by (cases "to_datetime (date r0)") auto
  have "find (\<lambda>s. isl (to_datetime s)) (map date df) = Some (date r0)"
    by (simp add: find_map_date r0)
  then have "to_datetime_col to_datetime (map date df) = Inl (projl (to_datetime (date r0)))"
    by (rule to_datetime_col_fails)
  then have col: "to_datetime_col to_datetime (map date df) = Inl e" by (simp add: e)
  have same: "monthly_spending_trend to_datetime df' = Inl e
               \<and> find_patterns to_datetime df' = Inl e"
    if d: "map date df' = map date df" for df'
  proof -
    have "df \<noteq> []" using assms(1) by auto
    then have "map date df' \<noteq> []" by (simp add: d)
    then have ne: "df' \<noteq> []" by auto
    have c: "to_datetime_col to_datetime (map date df') = Inl e" by (simp only: d col)
    show ?thesis
      using ne by (simp add: monthly_spending_trend_def find_patterns_def c)
  qed
  have m: "monthly_spending_trend to_datetime df = Inl e"
    and f: "find_patterns to_datetime df = Inl e"
    using same [of df] by simp_all
  have m': "monthly_spending_trend to_datetime df \<noteq> Inr None" by (simp add: m)
  have f': "find_patterns to_datetime df \<noteq> Inr []" by (simp add: f)
  from r0 e m f m' f' same show ?thesis by blast
qed

theorem malformed_date_fault_witness:
  "mk 1 ''2024-13-45'' 10 ''Food'' ''Cash'' \<in> set [mk 1 ''2024-13-45'' 10 ''Food'' ''Cash'']
   \<and> isl (to_datetime_iso (date (mk 1 ''2024-13-45'' 10 ''Food'' ''Cash'')))
   \<and> (\<exists>r0 e. find (\<lambda>r. isl (to_datetime_iso (date r))) [mk 1 ''2024-13-45'' 10 ''Food'' ''Cash'']
                 = Some r0
           \<and> to_datetime_iso (date r0) = Inl e
           \<and> monthly_spending_trend to_datetime_iso [mk 1 ''2024-13-45'' 10 ''Food'' ''Cash''] = Inl e
           \<and> find_patterns to_datetime_iso [mk 1 ''2024-13-45'' 10 ''Food'' ''Cash''] = Inl e
           \<and> monthly_spending_trend to_datetime_iso [mk 1 ''2024-13-45'' 10 ''Food'' ''Cash'']
                \<noteq> Inr None
           \<and> find_patterns to_datetime_iso [mk 1 ''2024-13-45'' 10 ''Food'' ''Cash''] \<noteq> Inr []
           \<and> (\<forall>df'. map date df' = map date [mk 1 ''2024-13-45'' 10 ''Food'' ''Cash''] \<longrightarrow>
                 monthly_spending_trend to_datetime_iso df' = Inl e
               \<and> find_patterns to_datetime_iso df' = Inl e))"
proof -
  have mem: "mk 1 ''2024-13-45'' 10 ''Food'' ''Cash'' \<in> set [mk 1 ''2024-13-45'' 10 ''Food'' ''Cash'']"
    by simp
  have bad: "isl (to_datetime_iso (date (mk 1 ''2024-13-45'' 10 ''Food'' ''Cash'')))"
    by code_simp
  show ?thesis
    by (rule conjI [OF mem conjI [OF bad
          malformed_date_fault [where to_datetime = to_datetime_iso
            and r = "mk 1 ''2024-13-45'' 10 ''Food'' ''Cash''"
            and df = "[mk 1 ''2024-13-45'' 10 ''Food'' ''Cash'']", OF mem bad]]])
qed

text \<open>
  The claim as stated asks for a fault that identifies the offending record id, and
  for no bad record to be passed over. Two snapshots that differ only in the id of the
  record with the date \<^verbatim>\<open>2024-13-45\<close> raise the same fault; and a record whose date is
  the empty string parses to the null timestamp and is left out of the monthly trend
  without any fault.
\<close>

theorem malformed_date_counterexample:
  "monthly_spending_trend to_datetime_iso [mk 1 ''2024-13-45'' 10 ''Food'' ''Cash'']
      = Inl (ValueError ''2024-13-45'')
   \<and> monthly_spending_trend to_datetime_iso [mk 2 ''2024-13-45'' 10 ''Food'' ''Cash'']
      = Inl (ValueError ''2024-13-45'')
   \<and> find_patterns to_datetime_iso [mk 1 ''2024-13-45'' 10 ''Food'' ''Cash'']
      = Inl (ValueError ''2024-13-45'')
   \<and> find_patterns to_datetime_iso [mk 2 ''2024-13-45'' 10 ''Food'' ''Cash'']
      = Inl (ValueError ''2024-13-45'')
   \<and> expense_id (mk 1 ''2024-13-45'' 10 ''Food'' ''Cash'')
      \<noteq> expense_id (mk 2 ''2024-13-45'' 10 ''Food'' ''Cash'')
   \<and> monthly_spending_trend to_datetime_iso
        [mk 1 ''2024-01-01'' 10 ''Food'' ''Cash'', mk 2 [] 5 ''Food'' ''Cash'']
      = Inr (Some [((2024, 1), \<lparr> Total_Spent = 10, Num_Expenses = 1, Avg_Expense = 10 \<rparr>)])"
  by code_simp

end
